theory Spec2Isabelle
  imports Main "HOL-Library.Word" "HOL-Library.Sublist" "HOL-Library.AList"
begin

unbundle bit_operations_syntax

section \<open>Paths\<close>

text \<open>
  \<^verbatim>\<open>fs::path\<close> wraps the string the user typed. The model keeps the string and gives
  the observers used by \<^verbatim>\<open>Main.cpp\<close> their meaning on a POSIX system: there is no
  root name, the only separator is \<^verbatim>\<open>/\<close>, and a path is absolute exactly when it has a
  root directory.
\<close>

type_synonym path = string

definition is_sep :: "char \<Rightarrow> bool" where
  "is_sep c = (c = CHR ''/'')"

definition is_absolute :: "path \<Rightarrow> bool" where
  "is_absolute p = (case p of [] \<Rightarrow> False | c # _ \<Rightarrow> is_sep c)"

text \<open>\<^verbatim>\<open>relative_path()\<close>: what follows the root directory.\<close>

definition relative_path :: "path \<Rightarrow> path" where
  "relative_path p = dropWhile is_sep p"

definition has_relative_path :: "path \<Rightarrow> bool" where
  "has_relative_path p = (relative_path p \<noteq> [])"

text \<open>\<^verbatim>\<open>filename()\<close>: the characters after the last separator (empty for a root and for
  a path with a trailing separator).\<close>

definition filename :: "path \<Rightarrow> path" where
  "filename p = rev (takeWhile (\<lambda>c. \<not> is_sep c) (rev p))"

definition has_filename :: "path \<Rightarrow> bool" where
  "has_filename p = (filename p \<noteq> [])"

text \<open>
  \<^verbatim>\<open>parent_path()\<close>: a path without relative part is its own parent; otherwise the last
  element of the iteration is dropped, together with the separators before it. When
  only the root directory is left it is the single separator.
\<close>

definition strip_seps :: "path \<Rightarrow> path" where
  "strip_seps p = rev (dropWhile is_sep (rev p))"

definition parent_path :: "path \<Rightarrow> path" where
  "parent_path p =
     (if \<not> has_relative_path p then p
      else let stem = rev (dropWhile (\<lambda>c. \<not> is_sep c) (rev p))
           in if stem = [] then []
              else if \<not> has_relative_path stem then ''/''
              else strip_seps stem)"

definition has_parent_path :: "path \<Rightarrow> bool" where
  "has_parent_path p = (parent_path p \<noteq> [])"

text \<open>\<^verbatim>\<open>operator/\<close>: an absolute right operand replaces the left one; otherwise a
  separator is added when the left operand ends in a filename.\<close>

definition append_path :: "path \<Rightarrow> path \<Rightarrow> path" where
  "append_path p q =
     (if is_absolute q then q
      else (if has_filename p then p @ ''/'' else p) @ q)"

text \<open>The string of the absolute path with the given components, as
  \<^verbatim>\<open>fs::canonical\<close> and \<^verbatim>\<open>fs::current_path\<close> return it.\<close>

fun join_comps :: "string list \<Rightarrow> path" where
  "join_comps [] = []"
| "join_comps [c] = c"
| "join_comps (c # d # cs) = c @ ''/'' @ join_comps (d # cs)"

definition abs_string :: "string list \<Rightarrow> path" where
  "abs_string cs = CHR ''/'' # join_comps cs"

text \<open>A name a directory can hold: not empty, without a separator.\<close>

definition valid_name :: "string \<Rightarrow> bool" where
  "valid_name nm = (nm \<noteq> [] \<and> (\<forall>c \<in> set nm. \<not> is_sep c) \<and> nm \<noteq> ''.'' \<and> nm \<noteq> ''..'')"

text \<open>A file-system root: only separators, at least one.\<close>

definition is_root :: "path \<Rightarrow> bool" where
  "is_root p = (is_absolute p \<and> \<not> has_relative_path p)"

text \<open>Command 3 of the loop in \<^verbatim>\<open>main\<close>:
  \<^verbatim>\<open>if (cur.has_parent_path()) cur = cur.parent_path();\<close>\<close>

definition go_up :: "path \<Rightarrow> path" where
  "go_up cur = (if has_parent_path cur then parent_path cur else cur)"

section \<open>Permission bits\<close>

text \<open>
  \<^verbatim>\<open>fs::perms\<close> is a bit mask over an unsigned integer; the nine bits that
  \<^verbatim>\<open>perms_to_string\<close> tests have their POSIX values (octal 400 down to 1).
  \<^verbatim>\<open>perms_to_string\<close> appends one character for each of the nine bits, in this order.
\<close>

type_synonym perms = "32 word"

definition owner_read :: perms where "owner_read = 0x100"
definition owner_write :: perms where "owner_write = 0x80"
definition owner_exec :: perms where "owner_exec = 0x40"
definition group_read :: perms where "group_read = 0x20"
definition group_write :: perms where "group_write = 0x10"
definition group_exec :: perms where "group_exec = 0x8"
definition others_read :: perms where "others_read = 0x4"
definition others_write :: perms where "others_write = 0x2"
definition others_exec :: perms where "others_exec = 0x1"

definition check :: "perms \<Rightarrow> perms \<Rightarrow> char \<Rightarrow> char" where
  "check p b c = (if p AND b \<noteq> 0 then c else CHR ''-'')"

definition perms_to_string :: "perms \<Rightarrow> string" where
  "perms_to_string p =
     [check p owner_read (CHR ''r''), check p owner_write (CHR ''w''), check p owner_exec (CHR ''x''),
      check p group_read (CHR ''r''), check p group_write (CHR ''w''), check p group_exec (CHR ''x''),
      check p others_read (CHR ''r''), check p others_write (CHR ''w''), check p others_exec (CHR ''x'')]"

section \<open>The file system\<close>

text \<open>
  The program runs against a file system, which is not part of it. The model is a tree of
  regular files, directories and symbolic links. A directory holds its entries in the
  order in which an iteration yields them. Files and directories carry their permission
  bits and their time of last modification. \<^verbatim>\<open>cwd\<close> is the working directory of the
  process, given by the names from the root; \<^verbatim>\<open>clock\<close> is the time stamped on a file
  that is created.

  Access is decided by the owner bits: the process owns every node and is not
  privileged. Reading a directory's entries needs the read bit, looking a name up in it
  the search bit, adding or removing an entry the write bit.
\<close>

record meta =
  mode :: perms
  mtime :: nat

datatype node =
    File meta string
  | Dir meta "(string \<times> node) list"
  | Symlink path

record fsys =
  root :: node
  cwd :: "string list"
  clock :: nat

datatype errno = ENOENT | ENOTDIR | EACCES | ELOOP | EINVAL | EBUSY | ENOTEMPTY | EISDIR

definition can_read :: "meta \<Rightarrow> bool" where
  "can_read m = (mode m AND owner_read \<noteq> 0)"

definition can_write :: "meta \<Rightarrow> bool" where
  "can_write m = (mode m AND owner_write \<noteq> 0)"

definition can_search :: "meta \<Rightarrow> bool" where
  "can_search m = (mode m AND owner_exec \<noteq> 0)"

text \<open>\<^verbatim>\<open>lookup\<close> walks real entries only: it follows no link and knows no dot.
  \<^verbatim>\<open>update_node\<close> replaces the node at such a location.\<close>

fun lookup :: "node \<Rightarrow> string list \<Rightarrow> node option" where
  "lookup n [] = Some n"
| "lookup (Dir m es) (c # cs) = (case map_of es c of None \<Rightarrow> None | Some n \<Rightarrow> lookup n cs)"
| "lookup _ (c # cs) = None"

fun update_node :: "(node \<Rightarrow> node) \<Rightarrow> node \<Rightarrow> string list \<Rightarrow> node" where
  "update_node f n [] = f n"
| "update_node f (Dir m es) (c # cs) =
     (case map_of es c of
        None \<Rightarrow> Dir m es
      | Some n \<Rightarrow> Dir m (AList.update c (update_node f n cs) es))"
| "update_node f n (c # cs) = n"

fun add_entry :: "string \<Rightarrow> node \<Rightarrow> node \<Rightarrow> node" where
  "add_entry nm new (Dir m es) = Dir m (AList.update nm new es)"
| "add_entry nm new n = n"

fun del_entry :: "string \<Rightarrow> node \<Rightarrow> node" where
  "del_entry nm (Dir m es) = Dir m (AList.delete nm es)"
| "del_entry nm n = n"

text \<open>
  Pathname resolution, as the operating system does it for every library call that takes
  a path. The path is cut at the separators and empty components vanish
  (\<^verbatim>\<open>path_names\<close>). For a call that looks at the file the path leads to, a trailing
  separator after a name stands for a final dot, so that the name must lead to a
  directory (\<^verbatim>\<open>split_path\<close>). \<^verbatim>\<open>namei\<close> walks the components from the root (or from the working directory
  for a relative path): a directory on the way must be searchable, a link is replaced by
  its target, at most 40 times in one resolution; the final link is kept when the caller
  does not follow (\<^verbatim>\<open>lstat\<close>). The result is the location found, or the directory and
  the final name when only that name is missing, or the error.
\<close>

fun split_on :: "string \<Rightarrow> string list" where
  "split_on [] = [[]]"
| "split_on (c # cs) =
     (if is_sep c then [] # split_on cs
      else (case split_on cs of [] \<Rightarrow> [[c]] | w # ws \<Rightarrow> (c # w) # ws))"

definition path_names :: "path \<Rightarrow> string list" where
  "path_names p = filter (\<lambda>c. c \<noteq> []) (split_on p)"

definition trailing_sep :: "path \<Rightarrow> bool" where
  "trailing_sep p = (p \<noteq> [] \<and> is_sep (last p))"

definition split_path :: "path \<Rightarrow> string list" where
  "split_path p =
     (let cs = path_names p
      in if cs \<noteq> [] \<and> trailing_sep p then cs @ [''.''] else cs)"

datatype located = Found "string list" | Absent "string list" string

function namei :: "node \<Rightarrow> nat \<Rightarrow> bool \<Rightarrow> string list \<Rightarrow> string list \<Rightarrow> errno + located" where
  "namei r fuel follow cur [] = Inr (Found cur)"
| "namei r fuel follow cur (c # rest) =
     (case lookup r cur of
        None \<Rightarrow> Inl ENOENT
      | Some (File _ _) \<Rightarrow> Inl ENOTDIR
      | Some (Symlink _) \<Rightarrow> Inl ENOTDIR
      | Some (Dir m es) \<Rightarrow>
          if \<not> can_search m then Inl EACCES
          else if c = ''.'' then namei r fuel follow cur rest
          else if c = ''..'' then namei r fuel follow (butlast cur) rest
          else (case map_of es c of
                  None \<Rightarrow> if rest = [] then Inr (Absent cur c) else Inl ENOENT
                | Some (Symlink t) \<Rightarrow>
                    if rest = [] \<and> \<not> follow then Inr (Found (cur @ [c]))
                    else if t = [] then Inl ENOENT
                    else if fuel = 0 then Inl ELOOP
                    else namei r (fuel - 1) follow (if is_absolute t then [] else cur)
                           (split_path t @ rest)
                | Some _ \<Rightarrow> namei r fuel follow (cur @ [c]) rest))"
  by pat_completeness auto
termination
  by (relation "measures [\<lambda>(r, fuel, follow, cur, cs). fuel, \<lambda>(r, fuel, follow, cur, cs). length cs]") auto

definition locate :: "fsys \<Rightarrow> bool \<Rightarrow> path \<Rightarrow> errno + located" where
  "locate fs follow p =
     (if p = [] then Inl ENOENT
      else namei (root fs) 40 follow (if is_absolute p then [] else cwd fs) (split_path p))"


section \<open>Library queries\<close>

text \<open>
  The functions of \<^verbatim>\<open>std::filesystem\<close> that \<^verbatim>\<open>Main.cpp\<close> calls, in their throwing
  overloads: \<^verbatim>\<open>Inl\<close> is the \<^verbatim>\<open>filesystem_error\<close> thrown. \<^verbatim>\<open>fs::status\<close> follows links
  and turns a missing file (\<^verbatim>\<open>ENOENT\<close>, \<^verbatim>\<open>ENOTDIR\<close>) into the type \<^verbatim>\<open>not_found\<close> with
  unknown permissions (all bits of \<^verbatim>\<open>0xFFFF\<close>); every other failure is thrown.
  \<^verbatim>\<open>fs::exists\<close> and \<^verbatim>\<open>fs::is_directory\<close> are tests on that status. \<^verbatim>\<open>fs::canonical\<close>
  is the absolute path of the location the path resolves to. \<^verbatim>\<open>open_dir\<close> is what the
  constructor of a directory iterator does.
\<close>

datatype file_type = not_found | regular | directory | symlink

record file_status =
  ftype :: file_type
  permissions :: perms

fun node_status :: "node \<Rightarrow> file_status" where
  "node_status (File m c) = \<lparr>ftype = regular, permissions = mode m\<rparr>"
| "node_status (Dir m es) = \<lparr>ftype = directory, permissions = mode m\<rparr>"
| "node_status (Symlink t) = \<lparr>ftype = symlink, permissions = 0x1FF\<rparr>"

definition status_not_found :: file_status where
  "status_not_found = \<lparr>ftype = not_found, permissions = 0xFFFF\<rparr>"

definition status_of :: "fsys \<Rightarrow> bool \<Rightarrow> path \<Rightarrow> errno + file_status" where
  "status_of fs follow p =
     (case locate fs follow p of
        Inl e \<Rightarrow> if e = ENOENT \<or> e = ENOTDIR then Inr status_not_found else Inl e
      | Inr (Absent d nm) \<Rightarrow> Inr status_not_found
      | Inr (Found c) \<Rightarrow>
          (case lookup (root fs) c of
             None \<Rightarrow> Inr status_not_found
           | Some n \<Rightarrow> Inr (node_status n)))"

definition fs_status :: "fsys \<Rightarrow> path \<Rightarrow> errno + file_status" where
  "fs_status fs p = status_of fs True p"

definition fs_symlink_status :: "fsys \<Rightarrow> path \<Rightarrow> errno + file_status" where
  "fs_symlink_status fs p = status_of fs False p"

definition fs_exists :: "fsys \<Rightarrow> path \<Rightarrow> errno + bool" where
  "fs_exists fs p =
     (case fs_status fs p of Inl e \<Rightarrow> Inl e | Inr st \<Rightarrow> Inr (ftype st \<noteq> not_found))"

definition fs_is_directory :: "fsys \<Rightarrow> path \<Rightarrow> errno + bool" where
  "fs_is_directory fs p =
     (case fs_status fs p of Inl e \<Rightarrow> Inl e | Inr st \<Rightarrow> Inr (ftype st = directory))"

definition fs_canonical :: "fsys \<Rightarrow> path \<Rightarrow> errno + path" where
  "fs_canonical fs p =
     (case locate fs True p of
        Inl e \<Rightarrow> Inl e
      | Inr (Absent d nm) \<Rightarrow> Inl ENOENT
      | Inr (Found c) \<Rightarrow> Inr (abs_string c))"

definition fs_current_path :: "fsys \<Rightarrow> errno + path" where
  "fs_current_path fs =
     (case lookup (root fs) (cwd fs) of
        Some (Dir m es) \<Rightarrow> Inr (abs_string (cwd fs))
      | _ \<Rightarrow> Inl ENOENT)"

definition fs_file_size :: "fsys \<Rightarrow> path \<Rightarrow> errno + nat" where
  "fs_file_size fs p =
     (case locate fs True p of
        Inl e \<Rightarrow> Inl e
      | Inr (Absent d nm) \<Rightarrow> Inl ENOENT
      | Inr (Found c) \<Rightarrow>
          (case lookup (root fs) c of
             Some (File m content) \<Rightarrow> Inr (length content)
           | Some (Dir m es) \<Rightarrow> Inl EISDIR
           | _ \<Rightarrow> Inl ENOENT))"

definition fs_last_write_time :: "fsys \<Rightarrow> path \<Rightarrow> errno + nat" where
  "fs_last_write_time fs p =
     (case locate fs True p of
        Inl e \<Rightarrow> Inl e
      | Inr (Absent d nm) \<Rightarrow> Inl ENOENT
      | Inr (Found c) \<Rightarrow>
          (case lookup (root fs) c of
             Some (File m content) \<Rightarrow> Inr (mtime m)
           | Some (Dir m es) \<Rightarrow> Inr (mtime m)
           | _ \<Rightarrow> Inl ENOENT))"

definition open_dir :: "fsys \<Rightarrow> path \<Rightarrow> errno + meta \<times> (string \<times> node) list" where
  "open_dir fs p =
     (case locate fs True p of
        Inl e \<Rightarrow> Inl e
      | Inr (Absent d nm) \<Rightarrow> Inl ENOENT
      | Inr (Found c) \<Rightarrow>
          (case lookup (root fs) c of
             Some (Dir m es) \<Rightarrow> if can_read m then Inr (m, es) else Inl EACCES
           | Some _ \<Rightarrow> Inl ENOTDIR
           | None \<Rightarrow> Inl ENOENT))"

section \<open>Library updates\<close>

text \<open>
  Opening an \<^verbatim>\<open>std::ofstream\<close> creates the file when only the final name is missing, and
  truncates an existing regular file; a stream that could not be opened is \<^verbatim>\<open>None\<close>. A
  new file gets the mode 0644 (0666 under the usual mask 022).

  \<^verbatim>\<open>fs::remove\<close> is \<^verbatim>\<open>remove\<close> of the C library: the path up to its last name is
  resolved to a directory, and the entry of that name is removed there, without
  following it when it is a link. It returns false when the entry or a directory on the
  way is missing. It throws on the root, on a last name that is a dot (\<^verbatim>\<open>EINVAL\<close>) or a
  double dot (\<^verbatim>\<open>ENOTEMPTY\<close>), on a directory that is not empty, on a file or link named
  with a trailing separator (\<^verbatim>\<open>ENOTDIR\<close>), and when the directory that holds the entry
  may not be searched or written. A trailing separator after the name of a directory is
  accepted.

  \<^verbatim>\<open>fs::remove_all\<close> opens the path as a directory without following a final link,
  empties it, entry by entry in depth, counting what it removes, and stops at the first
  failure with what is left. Then it calls \<^verbatim>\<open>fs::remove\<close> on the path, which is resolved
  again in the file system as it is by then, and adds one when that removed something. \<^verbatim>\<open>count_nodes\<close> is the size of a subtree, and \<^verbatim>\<open>removable\<close> says that no
  permission is missing in it.
\<close>

definition created_mode :: perms where
  "created_mode = 0x1A4"

definition ofstream_open :: "fsys \<Rightarrow> path \<Rightarrow> fsys option" where
  "ofstream_open fs p =
     (case locate fs True p of
        Inl e \<Rightarrow> None
      | Inr (Found c) \<Rightarrow>
          (case lookup (root fs) c of
             Some (File m content) \<Rightarrow>
               if can_write m
               then Some (fs\<lparr>root := update_node (\<lambda>_. File (m\<lparr>mtime := clock fs\<rparr>) []) (root fs) c\<rparr>)
               else None
           | _ \<Rightarrow> None)
      | Inr (Absent d nm) \<Rightarrow>
          (case lookup (root fs) d of
             Some (Dir m es) \<Rightarrow>
               if can_write m
               then Some (fs\<lparr>root := update_node
                            (add_entry nm (File \<lparr>mode = created_mode, mtime = clock fs\<rparr> []))
                            (root fs) d\<rparr>)
               else None
           | _ \<Rightarrow> None))"

definition remove_entry :: "fsys \<Rightarrow> string list \<Rightarrow> string \<Rightarrow> fsys" where
  "remove_entry fs d nm = fs\<lparr>root := update_node (del_entry nm) (root fs) d\<rparr>"

definition fs_remove :: "fsys \<Rightarrow> path \<Rightarrow> errno + bool \<times> fsys" where
  "fs_remove fs p =
     (if p = [] then Inr (False, fs)
      else if path_names p = [] then Inl EBUSY
      else (case namei (root fs) 40 True (if is_absolute p then [] else cwd fs)
                   (butlast (path_names p)) of
              Inl e \<Rightarrow> if e = ENOENT then Inr (False, fs) else Inl e
            | Inr (Absent d nm) \<Rightarrow> Inr (False, fs)
            | Inr (Found d) \<Rightarrow>
                (case lookup (root fs) d of
                   None \<Rightarrow> Inr (False, fs)
                 | Some (File pm c) \<Rightarrow> Inl ENOTDIR
                 | Some (Symlink t) \<Rightarrow> Inl ENOTDIR
                 | Some (Dir pm pes) \<Rightarrow>
                     if last (path_names p) = ''.'' then Inl EINVAL
                     else if last (path_names p) = ''..'' then Inl ENOTEMPTY
                     else if \<not> can_search pm then Inl EACCES
                     else (case map_of pes (last (path_names p)) of
                             None \<Rightarrow> Inr (False, fs)
                           | Some (Dir m es) \<Rightarrow>
                               if \<not> can_write pm then Inl EACCES
                               else if es \<noteq> [] then Inl ENOTEMPTY
                               else Inr (True, remove_entry fs d (last (path_names p)))
                           | Some n \<Rightarrow>
                               if trailing_sep p then Inl ENOTDIR
                               else if \<not> can_write pm then Inl EACCES
                               else Inr (True, remove_entry fs d (last (path_names p)))))))"

fun clear_node :: "node \<Rightarrow> errno option \<times> nat \<times> node"
  and clear_entries :: "bool \<Rightarrow> bool \<Rightarrow> (string \<times> node) list \<Rightarrow> errno option \<times> nat \<times> (string \<times> node) list"
where
  "clear_node (Dir m es) =
     (if \<not> can_read m then (Some EACCES, 0, Dir m es)
      else (case clear_entries (can_write m) (can_search m) es of
              (e, k, es') \<Rightarrow> (e, k, Dir m es')))"
| "clear_node (File m c) = (None, 0, File m c)"
| "clear_node (Symlink t) = (None, 0, Symlink t)"
| "clear_entries w x [] = (None, 0, [])"
| "clear_entries w x ((nm, n) # es) =
     (if \<not> x then (Some EACCES, 0, (nm, n) # es)
      else (case clear_node n of
              (Some e, k, n') \<Rightarrow> (Some e, k, (nm, n') # es)
            | (None, k, n') \<Rightarrow>
                if \<not> w then (Some EACCES, k, (nm, n') # es)
                else (case clear_entries w x es of
                        (e, k', es') \<Rightarrow> (e, Suc k + k', es'))))"


fun removable :: "node \<Rightarrow> bool"
  and removable_entries :: "(string \<times> node) list \<Rightarrow> bool"
where
  "removable (Dir m es) = (can_read m \<and> can_write m \<and> can_search m \<and> removable_entries es)"
| "removable (File m c) = True"
| "removable (Symlink t) = True"
| "removable_entries [] = True"
| "removable_entries ((nm, n) # es) = (removable n \<and> removable_entries es)"

definition count_removed :: "errno + bool \<times> fsys \<Rightarrow> nat \<Rightarrow> fsys \<Rightarrow> (errno + nat) \<times> fsys" where
  "count_removed res k fs =
     (case res of
        Inl e \<Rightarrow> (Inl e, fs)
      | Inr (removed, fs') \<Rightarrow> (Inr (k + (if removed then 1 else 0)), fs'))"

definition fs_remove_all :: "fsys \<Rightarrow> path \<Rightarrow> (errno + nat) \<times> fsys" where
  "fs_remove_all fs p =
     (case locate fs False p of
        Inl e \<Rightarrow>
          if e = ENOENT then (Inr 0, fs)
          else if e = ENOTDIR \<or> e = ELOOP then count_removed (fs_remove fs p) 0 fs
          else (Inl e, fs)
      | Inr (Absent d nm) \<Rightarrow> (Inr 0, fs)
      | Inr (Found c) \<Rightarrow>
          (case lookup (root fs) c of
             None \<Rightarrow> (Inr 0, fs)
           | Some n \<Rightarrow>
               (case clear_node n of
                  (Some e, k, n') \<Rightarrow> (Inl e, fs\<lparr>root := update_node (\<lambda>_. n') (root fs) c\<rparr>)
                | (None, k, n') \<Rightarrow>
                    (let fs' = fs\<lparr>root := update_node (\<lambda>_. n') (root fs) c\<rparr>
                     in count_removed (fs_remove fs' p) k fs'))))"

section \<open>The program\<close>

text \<open>
  The functions of \<^verbatim>\<open>Main.cpp\<close>. What the program prints is kept as a list of reports,
  one constructor for each message of the source; a row of the listing keeps its five
  columns. The column MODIFIED holds the time itself (its rendering depends on the clock
  and the time zone), and \<^verbatim>\<open>None\<close> where the source prints the empty string.

  A directory entry knows its own type from the iteration, as \<^verbatim>\<open>readdir\<close> reports it:
  \<^verbatim>\<open>entry.is_directory()\<close> and \<^verbatim>\<open>entry.is_regular_file()\<close> ask the file system, following
  the link, only for an entry that is a link, and \<^verbatim>\<open>entry.is_symlink()\<close> never does.
  An exception of these calls leaves the loop of \<^verbatim>\<open>list_dir\<close> through its outer handler;
  the three inner handlers keep the defaults of the row.
\<close>

record row =
  row_type :: string
  row_perm :: string
  row_size :: nat
  row_mod :: "nat option"
  row_name :: string

datatype report =
    Current_Directory path
  | Table_Header
  | Row row
  | Error_Listing errno
  | Menu
  | Prompt string
  | Not_A_Directory
  | Path_Already_Exists
  | Failed_To_Create
  | File_Created path
  | Directory_Created path
  | Path_Does_Not_Exist
  | Deleted_Entries nat
  | Source_Does_Not_Exist
  | Copied_To path
  | Moved_To path
  | Hit path
  | Error_Searching errno
  | Error_Caught errno
  | Goodbye
  | Invalid_Choice

definition entry_file_type :: "fsys \<Rightarrow> path \<Rightarrow> node \<Rightarrow> errno + file_type" where
  "entry_file_type fs p n =
     (case n of
        Symlink t \<Rightarrow> (case fs_status fs p of Inl e \<Rightarrow> Inl e | Inr st \<Rightarrow> Inr (ftype st))
      | _ \<Rightarrow> Inr (ftype (node_status n)))"

definition entry_is_symlink :: "node \<Rightarrow> bool" where
  "entry_is_symlink n = (ftype (node_status n) = symlink)"

definition entry_row :: "fsys \<Rightarrow> path \<Rightarrow> node \<Rightarrow> errno + row" where
  "entry_row fs p n =
     (case entry_file_type fs p n of
        Inl e \<Rightarrow> Inl e
      | Inr t \<Rightarrow>
          Inr \<lparr>row_type = (if t = directory then ''[DIR]''
                           else if entry_is_symlink n then ''[LNK]'' else ''[FILE]''),
               row_perm = (case fs_status fs p of
                             Inl e \<Rightarrow> ''----------''
                           | Inr st \<Rightarrow> perms_to_string (permissions st)),
               row_size = (if t = regular
                           then (case fs_file_size fs p of Inl e \<Rightarrow> 0 | Inr k \<Rightarrow> k)
                           else 0),
               row_mod = (case fs_last_write_time fs p of Inl e \<Rightarrow> None | Inr k \<Rightarrow> Some k),
               row_name = filename p\<rparr>)"

fun list_entries :: "fsys \<Rightarrow> path \<Rightarrow> (string \<times> node) list \<Rightarrow> report list" where
  "list_entries fs cur [] = []"
| "list_entries fs cur ((nm, n) # es) =
     (case entry_row fs (append_path cur nm) n of
        Inl e \<Rightarrow> [Error_Listing e]
      | Inr r \<Rightarrow> Row r # list_entries fs cur es)"

definition list_dir :: "fsys \<Rightarrow> path \<Rightarrow> report list" where
  "list_dir fs cur =
     [Current_Directory cur, Table_Header] @
     (case open_dir fs cur of
        Inl e \<Rightarrow> [Error_Listing e]
      | Inr (m, es) \<Rightarrow> list_entries fs cur es)"

definition input_path :: "string \<Rightarrow> string list \<Rightarrow> report list \<times> path option \<times> string list" where
  "input_path prompt inp =
     ([Prompt prompt],
      (case inp of
         [] \<Rightarrow> (None, [])
       | s # rest \<Rightarrow> (if s = [] then None else Some s, rest)))"

definition create_file :: "fsys \<Rightarrow> path \<Rightarrow> fsys \<times> report list" where
  "create_file fs p =
     (case fs_exists fs p of
        Inl e \<Rightarrow> (fs, [Error_Caught e])
      | Inr ex \<Rightarrow>
          if ex then (fs, [Path_Already_Exists])
          else (case ofstream_open fs p of
                  None \<Rightarrow> (fs, [Failed_To_Create])
                | Some fs' \<Rightarrow> (fs', [File_Created p])))"

text \<open>
  The effect of \<^verbatim>\<open>fs::create_directories\<close>, \<^verbatim>\<open>fs::copy\<close>, \<^verbatim>\<open>fs::copy_file\<close> and
  \<^verbatim>\<open>fs::rename\<close> on the file system is not modelled: the program takes them as
  parameters, each returning the error it throws, if any, and the file system it leaves.
\<close>

record lib =
  lib_create_directories :: "fsys \<Rightarrow> path \<Rightarrow> errno option \<times> fsys"
  lib_copy :: "fsys \<Rightarrow> path \<Rightarrow> path \<Rightarrow> errno option \<times> fsys"
  lib_copy_file :: "fsys \<Rightarrow> path \<Rightarrow> path \<Rightarrow> errno option \<times> fsys"
  lib_rename :: "fsys \<Rightarrow> path \<Rightarrow> path \<Rightarrow> errno option \<times> fsys"

definition create_directory_path :: "lib \<Rightarrow> fsys \<Rightarrow> path \<Rightarrow> fsys \<times> report list" where
  "create_directory_path l fs p =
     (case fs_exists fs p of
        Inl e \<Rightarrow> (fs, [Error_Caught e])
      | Inr ex \<Rightarrow>
          if ex then (fs, [Path_Already_Exists])
          else (case lib_create_directories l fs p of
                  (Some e, fs') \<Rightarrow> (fs', [Error_Caught e])
                | (None, fs') \<Rightarrow> (fs', [Directory_Created p])))"

definition delete_path :: "fsys \<Rightarrow> path \<Rightarrow> fsys \<times> report list" where
  "delete_path fs p =
     (case fs_exists fs p of
        Inl e \<Rightarrow> (fs, [Error_Caught e])
      | Inr ex \<Rightarrow>
          if \<not> ex then (fs, [Path_Does_Not_Exist])
          else (case fs_is_directory fs p of
                  Inl e \<Rightarrow> (fs, [Error_Caught e])
                | Inr isdir \<Rightarrow>
                    if isdir
                    then (case fs_remove_all fs p of
                            (Inl e, fs') \<Rightarrow> (fs', [Error_Caught e])
                          | (Inr k, fs') \<Rightarrow> (fs', [Deleted_Entries k]))
                    else (case fs_remove fs p of
                            Inl e \<Rightarrow> (fs, [Error_Caught e])
                          | Inr (removed, fs') \<Rightarrow>
                              (fs', [Deleted_Entries (if removed then 1 else 0)]))))"

definition copy_path :: "lib \<Rightarrow> fsys \<Rightarrow> path \<Rightarrow> path \<Rightarrow> fsys \<times> report list" where
  "copy_path l fs from to =
     (case fs_exists fs from of
        Inl e \<Rightarrow> (fs, [Error_Caught e])
      | Inr ex \<Rightarrow>
          if \<not> ex then (fs, [Source_Does_Not_Exist])
          else (case fs_is_directory fs from of
                  Inl e \<Rightarrow> (fs, [Error_Caught e])
                | Inr isdir \<Rightarrow>
                    (case (if isdir then lib_copy l fs from to else lib_copy_file l fs from to) of
                       (Some e, fs') \<Rightarrow> (fs', [Error_Caught e])
                     | (None, fs') \<Rightarrow> (fs', [Copied_To to]))))"

definition move_path :: "lib \<Rightarrow> fsys \<Rightarrow> path \<Rightarrow> path \<Rightarrow> fsys \<times> report list" where
  "move_path l fs from to =
     (case lib_rename l fs from to of
        (Some e, fs') \<Rightarrow> (fs', [Error_Caught e])
      | (None, fs') \<Rightarrow> (fs', [Moved_To to]))"

text \<open>
  \<^verbatim>\<open>std::string::find\<close> returns the first position of the needle. The recursive
  iterator with \<^verbatim>\<open>skip_permission_denied\<close> yields every entry of a directory and then
  descends into an entry that is a directory (not a link to one) when it can be opened:
  the directory above must be searchable and the directory itself readable.
\<close>

fun str_find :: "string \<Rightarrow> string \<Rightarrow> nat option" where
  "str_find [] needle = (if needle = [] then Some 0 else None)"
| "str_find (c # s) needle =
     (if prefix needle (c # s) then Some 0 else map_option Suc (str_find s needle))"

fun walk_node :: "path \<Rightarrow> bool \<Rightarrow> node \<Rightarrow> path list"
  and walk_entries :: "path \<Rightarrow> bool \<Rightarrow> (string \<times> node) list \<Rightarrow> path list"
where
  "walk_node p x (Dir m es) = (if x \<and> can_read m then walk_entries p (can_search m) es else [])"
| "walk_node p x (File m c) = []"
| "walk_node p x (Symlink t) = []"
| "walk_entries d x [] = []"
| "walk_entries d x ((nm, n) # es) =
     append_path d nm # walk_node (append_path d nm) x n @ walk_entries d x es"

text \<open>
  For the statement of what a search finds: a well-formed tree has valid, distinct names
  in every directory; \<^verbatim>\<open>path_below d cs\<close> is the path of the entry reached from \<open>d\<close> by the
  names \<open>cs\<close>; \<^verbatim>\<open>listed x es cs\<close> says, by recursion on the names, that the entry \<open>cs\<close>
  exists below a directory with entries \<open>es\<close> and that every directory above it can be
  opened. \<^verbatim>\<open>walk_comps_entries\<close> is the walk in terms of names.
\<close>

fun wf_node :: "node \<Rightarrow> bool"
  and wf_entries :: "(string \<times> node) list \<Rightarrow> bool"
where
  "wf_node (Dir m es) = (distinct (map fst es) \<and> wf_entries es)"
| "wf_node (File m c) = True"
| "wf_node (Symlink t) = True"
| "wf_entries [] = True"
| "wf_entries ((nm, n) # es) = (valid_name nm \<and> wf_node n \<and> wf_entries es)"

definition path_below :: "path \<Rightarrow> string list \<Rightarrow> path" where
  "path_below d cs = foldl append_path d cs"

fun listed :: "bool \<Rightarrow> (string \<times> node) list \<Rightarrow> string list \<Rightarrow> bool" where
  "listed x es [] = False"
| "listed x es [c] = (map_of es c \<noteq> None)"
| "listed x es (c # c' # cs) =
     (case map_of es c of
        Some (Dir m es') \<Rightarrow> x \<and> can_read m \<and> listed (can_search m) es' (c' # cs)
      | _ \<Rightarrow> False)"

definition listed_in :: "bool \<Rightarrow> node \<Rightarrow> string list \<Rightarrow> bool" where
  "listed_in x n cs =
     (case n of Dir m es \<Rightarrow> x \<and> can_read m \<and> listed (can_search m) es cs | _ \<Rightarrow> False)"

definition base :: "path \<Rightarrow> path" where
  "base d = (if has_filename d then d @ ''/'' else d)"

fun walk_comps_node :: "bool \<Rightarrow> node \<Rightarrow> string list list"
  and walk_comps_entries :: "bool \<Rightarrow> (string \<times> node) list \<Rightarrow> string list list"
where
  "walk_comps_node x (Dir m es) =
     (if x \<and> can_read m then walk_comps_entries (can_search m) es else [])"
| "walk_comps_node x (File m c) = []"
| "walk_comps_node x (Symlink t) = []"
| "walk_comps_entries x [] = []"
| "walk_comps_entries x ((nm, n) # es) =
     [nm] # map ((#) nm) (walk_comps_node x n) @ walk_comps_entries x es"

definition search_recursive :: "fsys \<Rightarrow> path \<Rightarrow> string \<Rightarrow> report list" where
  "search_recursive fs root_dir needle =
     (case open_dir fs root_dir of
        Inl e \<Rightarrow> if e = EACCES then [] else [Error_Searching e]
      | Inr (m, es) \<Rightarrow>
          map Hit (filter (\<lambda>p. str_find (filename p) needle \<noteq> None)
                     (walk_entries root_dir (can_search m) es)))"

text \<open>
  The loop of \<^verbatim>\<open>main\<close>. The input is the list of the lines that remain on standard
  input; \<^verbatim>\<open>getline\<close> at its end fails and leaves the empty string. \<^verbatim>\<open>resolve\<close> is the
  expression \<^verbatim>\<open>p.is_absolute() ? p : (cur / p)\<close>. The branch for command 2 calls the
  library outside any handler, so that an exception there ends the process through
  \<^verbatim>\<open>std::terminate\<close>.
\<close>

definition resolve :: "path \<Rightarrow> path \<Rightarrow> path" where
  "resolve cur p = (if is_absolute p then p else append_path cur p)"

definition enter_directory :: "fsys \<Rightarrow> path \<Rightarrow> path \<Rightarrow> errno + path \<times> report list" where
  "enter_directory fs cur dir =
     (let cand = resolve cur dir
      in case fs_exists fs cand of
           Inl e \<Rightarrow> Inl e
         | Inr ex \<Rightarrow>
             if \<not> ex then Inr (cur, [Not_A_Directory])
             else (case fs_is_directory fs cand of
                     Inl e \<Rightarrow> Inl e
                   | Inr isdir \<Rightarrow>
                       if \<not> isdir then Inr (cur, [Not_A_Directory])
                       else (case fs_canonical fs cand of
                               Inl e \<Rightarrow> Inl e
                             | Inr c \<Rightarrow> Inr (c, []))))"

datatype flow =
    Continue fsys path "string list" "report list"
  | Break "report list"
  | Uncaught errno "report list"

definition command :: "lib \<Rightarrow> fsys \<Rightarrow> path \<Rightarrow> string \<Rightarrow> string list \<Rightarrow> flow" where
  "command l fs cur choice inp =
     (if choice = ''1'' then Continue fs cur inp []
      else if choice = ''2'' then
        (case input_path ''Enter directory name: '' inp of
           (out, None, inp') \<Rightarrow> Continue fs cur inp' out
         | (out, Some dir, inp') \<Rightarrow>
             (case enter_directory fs cur dir of
                Inl e \<Rightarrow> Uncaught e out
              | Inr (cur', out') \<Rightarrow> Continue fs cur' inp' (out @ out')))
      else if choice = ''3'' then Continue fs (go_up cur) inp []
      else if choice = ''4'' then
        (case input_path ''Enter file path to create: '' inp of
           (out, None, inp') \<Rightarrow> Continue fs cur inp' out
         | (out, Some p, inp') \<Rightarrow>
             (case create_file fs (resolve cur p) of
                (fs', out') \<Rightarrow> Continue fs' cur inp' (out @ out')))
      else if choice = ''5'' then
        (case input_path ''Enter directory path to create: '' inp of
           (out, None, inp') \<Rightarrow> Continue fs cur inp' out
         | (out, Some p, inp') \<Rightarrow>
             (case create_directory_path l fs (resolve cur p) of
                (fs', out') \<Rightarrow> Continue fs' cur inp' (out @ out')))
      else if choice = ''6'' then
        (case input_path ''Enter file/directory to delete: '' inp of
           (out, None, inp') \<Rightarrow> Continue fs cur inp' out
         | (out, Some p, inp') \<Rightarrow>
             (case delete_path fs (resolve cur p) of
                (fs', out') \<Rightarrow> Continue fs' cur inp' (out @ out')))
      else if choice = ''7'' then
        (case input_path ''Enter source path: '' inp of
           (out, None, inp') \<Rightarrow> Continue fs cur inp' out
         | (out, Some src, inp') \<Rightarrow>
             (case input_path ''Enter destination path: '' inp' of
                (out', None, inp'') \<Rightarrow> Continue fs cur inp'' (out @ out')
              | (out', Some dst, inp'') \<Rightarrow>
                  (case copy_path l fs (resolve cur src) (resolve cur dst) of
                     (fs', out'') \<Rightarrow> Continue fs' cur inp'' (out @ out' @ out''))))
      else if choice = ''8'' then
        (case input_path ''Enter source path: '' inp of
           (out, None, inp') \<Rightarrow> Continue fs cur inp' out
         | (out, Some src, inp') \<Rightarrow>
             (case input_path ''Enter destination path: '' inp' of
                (out', None, inp'') \<Rightarrow> Continue fs cur inp'' (out @ out')
              | (out', Some dst, inp'') \<Rightarrow>
                  (case move_path l fs (resolve cur src) (resolve cur dst) of
                     (fs', out'') \<Rightarrow> Continue fs' cur inp'' (out @ out' @ out''))))
      else if choice = ''9'' then
        (case inp of
           [] \<Rightarrow> Continue fs cur [] [Prompt ''Enter name to search: '']
         | needle # inp' \<Rightarrow>
             Continue fs cur inp'
               (Prompt ''Enter name to search: '' #
                (if needle \<noteq> [] then search_recursive fs cur needle else [])))
      else if choice = ''0'' then Break [Goodbye]
      else Continue fs cur inp [Invalid_Choice])"

datatype exit_status = Exit_Code int | Terminate_Called errno

function main_loop :: "lib \<Rightarrow> fsys \<Rightarrow> path \<Rightarrow> string list \<Rightarrow> exit_status \<times> fsys \<times> path \<times> report list" where
  "main_loop l fs cur [] = (Exit_Code 0, fs, cur, list_dir fs cur @ [Menu])"
| "main_loop l fs cur (choice # inp) =
     (case command l fs cur choice inp of
        Break out \<Rightarrow> (Exit_Code 0, fs, cur, list_dir fs cur @ Menu # out)
      | Uncaught e out \<Rightarrow> (Terminate_Called e, fs, cur, list_dir fs cur @ Menu # out)
      | Continue fs' cur' inp' out \<Rightarrow>
          (case main_loop l fs' cur' inp' of
             (st, fs'', cur'', out') \<Rightarrow> (st, fs'', cur'', list_dir fs cur @ Menu # out @ out')))"
  by pat_completeness auto
termination
proof (relation "measure (\<lambda>(l, fs, cur, inp). length inp)")
  show "wf (measure (\<lambda>(l, fs, cur, inp). length inp))" by simp
next
  fix l fs cur choice inp fs' cur' inp' out
  assume "command l fs cur choice inp = Continue fs' cur' inp' out"
  then have "length inp' \<le> length inp"
    by (auto simp: command_def input_path_def split: if_splits list.splits prod.splits sum.splits)
  then show "((l, fs', cur', inp'), (l, fs, cur, choice # inp)) \<in> measure (\<lambda>(l, fs, cur, inp). length inp)"
    by simp
qed

definition main :: "lib \<Rightarrow> fsys \<Rightarrow> string list \<Rightarrow> exit_status \<times> fsys \<times> path \<times> report list" where
  "main l fs inp =
     (case fs_current_path fs of
        Inl e \<Rightarrow> (Terminate_Called e, fs, [], [])
      | Inr cur \<Rightarrow> main_loop l fs cur inp)"

text \<open>An instance of the parameters in which each of the four calls fails.\<close>

definition no_lib :: lib where
  "no_lib = \<lparr>lib_create_directories = (\<lambda>fs p. (Some EINVAL, fs)),
            lib_copy = (\<lambda>fs a b. (Some EINVAL, fs)),
            lib_copy_file = (\<lambda>fs a b. (Some EINVAL, fs)),
            lib_rename = (\<lambda>fs a b. (Some EINVAL, fs))\<rparr>"

section \<open>A sample file system\<close>

definition rwx :: "perms \<Rightarrow> meta" where
  "rwx p = \<lparr>mode = p, mtime = 100\<rparr>"

definition proj_entries :: "(string \<times> node) list" where
  "proj_entries =
     [(''x'', Dir (rwx 0x1ED) [(''abc.txt'', File (rwx 0x1A4) ''abc'')]),
      (''y'', Dir (rwx 0x1ED) [(''zzabc'', File (rwx 0x1A4) [])]),
      (''z'', Dir (rwx 0x1ED) [(''noMatch'', File (rwx 0x1A4) [])]),
      (''notes'', File (rwx 0x1A4) ''hi''),
      (''sub'', Symlink ''x''),
      (''gone'', Symlink ''nowhere'')]"

definition root_entries :: "(string \<times> node) list" where
  "root_entries =
     [(''proj'', Dir (rwx 0x1ED) proj_entries),
      (''vault'', Dir (rwx 0) [(''abcd'', File (rwx 0x1A4) [])]),
      (''inbox'', Dir (rwx 0x124) [(''a'', File (rwx 0x1A4) ''mail'')])]"

definition demo_tree :: node where
  "demo_tree = Dir (rwx 0x1ED) root_entries"

definition demo_fs :: fsys where
  "demo_fs = \<lparr>root = demo_tree, cwd = [''proj''], clock = 200\<rparr>"

section \<open>Properties of the path layer\<close>

lemma join_comps_snoc:
  "join_comps (cs @ [c]) = (if cs = [] then c else join_comps cs @ ''/'' @ c)"
  by (induction cs rule: join_comps.induct) auto

lemma join_comps_hd:
  "cs \<noteq> [] \<Longrightarrow> list_all valid_name cs \<Longrightarrow> join_comps cs \<noteq> [] \<and> \<not> is_sep (hd (join_comps cs))"
  by (induction cs rule: join_comps.induct) (auto simp: valid_name_def neq_Nil_conv)

lemma join_comps_nonempty: "d \<noteq> [] \<Longrightarrow> join_comps (d # cs) \<noteq> []"
  by (cases cs) auto

lemma join_comps_last:
  "cs \<noteq> [] \<Longrightarrow> list_all valid_name cs \<Longrightarrow> \<not> is_sep (last (join_comps cs))"
  by (induction cs rule: join_comps.induct) (auto simp: valid_name_def join_comps_nonempty)

lemma dropWhile_hd: "xs \<noteq> [] \<Longrightarrow> \<not> P (hd xs) \<Longrightarrow> dropWhile P xs = xs"
  by (cases xs) auto

lemma takeWhile_all_append: "\<forall>x\<in>set xs. P x \<Longrightarrow> takeWhile P (xs @ ys) = xs @ takeWhile P ys"
  by (induction xs) auto

lemma dropWhile_all_append: "\<forall>x\<in>set xs. P x \<Longrightarrow> dropWhile P (xs @ ys) = dropWhile P ys"
  by (induction xs) auto

lemma parent_path_abs_string:
  assumes "list_all valid_name (cs @ [c])"
  shows "parent_path (abs_string (cs @ [c])) = abs_string cs"
proof (cases "cs = []")
  case True
  from assms have c: "c \<noteq> []" "\<forall>x\<in>set c. \<not> is_sep x" by (auto simp: valid_name_def)
  then have "\<not> is_sep (hd c)" by (cases c) auto
  with c True show ?thesis
    by (simp add: parent_path_def abs_string_def has_relative_path_def relative_path_def
        is_sep_def dropWhile_hd dropWhile_all_append)
next
  case False
  from assms have c: "c \<noteq> []" "\<forall>x\<in>set c. \<not> is_sep x" and v: "list_all valid_name cs"
    by (auto simp: valid_name_def)
  let ?j = "join_comps cs"
  from join_comps_hd[OF False v] join_comps_last[OF False v]
  have j: "?j \<noteq> []" "\<not> is_sep (hd ?j)" "\<not> is_sep (last ?j)" by auto
  have p: "abs_string (cs @ [c]) = CHR ''/'' # ?j @ ''/'' @ c"
    using False by (simp add: abs_string_def join_comps_snoc)
  have rel: "has_relative_path (abs_string (cs @ [c]))"
    using j by (simp add: p has_relative_path_def relative_path_def is_sep_def dropWhile_hd)
  have stem: "rev (dropWhile (\<lambda>c. \<not> is_sep c) (rev (abs_string (cs @ [c])))) = CHR ''/'' # ?j @ ''/''"
    using c by (simp add: p dropWhile_all_append is_sep_def)
  have rel2: "has_relative_path (CHR ''/'' # ?j @ ''/'')"
    using j by (simp add: has_relative_path_def relative_path_def is_sep_def dropWhile_hd)
  have "dropWhile is_sep (rev ?j @ ''/'') = rev ?j @ ''/''"
    using j by (intro dropWhile_hd) (auto simp: hd_rev hd_append)
  then have strip: "strip_seps (CHR ''/'' # ?j @ ''/'') = CHR ''/'' # ?j"
    by (simp add: strip_seps_def is_sep_def)
  show ?thesis
    unfolding parent_path_def using rel rel2 strip
    by (simp add: stem Let_def) (simp add: abs_string_def)
qed

lemma is_absolute_Cons: "is_absolute p \<longleftrightarrow> (\<exists>q. p = CHR ''/'' # q)"
  by (cases p) (auto simp: is_absolute_def is_sep_def)

lemma rev_dropWhile_rev_Cons:
  "rev (dropWhile P (rev (x # q))) = [] \<or> (\<exists>u. rev (dropWhile P (rev (x # q))) = x # u)"
proof -
  have "suffix (dropWhile P (rev (x # q))) (rev (x # q))" by (rule suffix_dropWhile)
  then have "prefix (rev (dropWhile P (rev (x # q)))) (x # q)"
    by (metis rev_rev_ident suffix_to_prefix)
  then show ?thesis by (cases "rev (dropWhile P (rev (x # q)))") auto
qed

lemma parent_path_absolute:
  assumes "is_absolute p" shows "is_absolute (parent_path p)"
proof -
  from assms obtain q where p: "p = CHR ''/'' # q" by (auto simp: is_absolute_Cons)
  let ?stem = "rev (dropWhile (\<lambda>c. \<not> is_sep c) (rev p))"
  have "?stem \<noteq> []" by (simp add: p dropWhile_eq_Nil_conv is_sep_def)
  with rev_dropWhile_rev_Cons[of "\<lambda>c. \<not> is_sep c" "CHR ''/''" q]
  obtain u where stem: "?stem = CHR ''/'' # u" by (auto simp: p)
  have s2: "\<exists>w. strip_seps (CHR ''/'' # u) = CHR ''/'' # w" if "has_relative_path (CHR ''/'' # u)"
  proof -
    from that have "strip_seps (CHR ''/'' # u) \<noteq> []"
      by (auto simp: has_relative_path_def relative_path_def strip_seps_def dropWhile_eq_Nil_conv)
    with rev_dropWhile_rev_Cons[of is_sep "CHR ''/''" u] show ?thesis
      by (auto simp: strip_seps_def)
  qed
  show ?thesis
    using assms s2 unfolding parent_path_def Let_def stem
    by (auto simp: is_absolute_Cons)
qed

lemma go_up_absolute: "is_absolute p \<Longrightarrow> go_up p = parent_path p"
  using parent_path_absolute[of p] by (auto simp: go_up_def has_parent_path_def is_absolute_def)


text \<open>The current directory starts absolute (\<^verbatim>\<open>fs::current_path\<close>) and stays so.\<close>

lemma is_absolute_abs_string: "is_absolute (abs_string cs)"
  by (simp add: abs_string_def is_absolute_def is_sep_def)

lemma enter_directory_absolute:
  "is_absolute cur \<Longrightarrow> enter_directory fs cur dir = Inr (cur', out) \<Longrightarrow> is_absolute cur'"
  by (auto simp: enter_directory_def Let_def fs_canonical_def is_absolute_abs_string
      split: sum.splits if_splits located.splits)

lemma command_keeps_absolute:
  "is_absolute cur \<Longrightarrow> command l fs cur choice inp = Continue fs' cur' inp' out \<Longrightarrow>
   is_absolute cur'"
  by (auto simp: command_def input_path_def go_up_absolute parent_path_absolute
      split: if_splits list.splits prod.splits sum.splits option.splits
      dest: enter_directory_absolute)

lemmas demo_defs = demo_fs_def demo_tree_def root_entries_def proj_entries_def rwx_def
lemmas path_defs = is_absolute_def is_sep_def append_path_def has_filename_def filename_def
  split_path_def path_names_def trailing_sep_def resolve_def
lemmas access_defs = can_read_def can_write_def can_search_def owner_read_def owner_write_def
  owner_exec_def

section \<open>Going up\<close>

text \<open>
  Claim C4. On a file-system root, going up is a no-op: the current directory stays the
  root and command 3 continues without any report. On every other absolute path (the
  current directory is always absolute) going up yields the parent path, and command 3
  continues with it; the parent of the absolute path with components \<open>cs @ [c]\<close> is the
  absolute path with components \<open>cs\<close>.
\<close>

theorem go_up_root_noop:
  "(is_root p \<longrightarrow> go_up p = p \<and> command l fs p ''3'' inp = Continue fs p inp []) \<and>
   (is_absolute p \<and> \<not> is_root p \<longrightarrow>
      go_up p = parent_path p \<and> is_absolute (parent_path p) \<and>
      command l fs p ''3'' inp = Continue fs (parent_path p) inp []) \<and>
   (list_all valid_name (cs @ [c]) \<longrightarrow> go_up (abs_string (cs @ [c])) = abs_string cs)"
proof (intro conjI impI)
  assume "is_root p"
  then have "go_up p = p"
    by (simp add: is_root_def go_up_def parent_path_def)
  then show "go_up p = p" "command l fs p ''3'' inp = Continue fs p inp []"
    by (simp_all add: command_def)
next
  assume "is_absolute p \<and> \<not> is_root p"
  then have a: "is_absolute p" by simp
  then show "go_up p = parent_path p" "is_absolute (parent_path p)"
    "command l fs p ''3'' inp = Continue fs (parent_path p) inp []"
    by (simp_all add: go_up_absolute parent_path_absolute command_def)
next
  assume v: "list_all valid_name (cs @ [c])"
  have "is_absolute (abs_string (cs @ [c]))" by (simp add: abs_string_def is_absolute_def is_sep_def)
  then show "go_up (abs_string (cs @ [c])) = abs_string cs"
    using v by (simp add: go_up_absolute parent_path_abs_string)
qed

theorem go_up_root_noop_witness:
  "is_root ''/'' \<and> go_up ''/'' = ''/'' \<and>
   is_absolute ''/tmp/proj'' \<and> \<not> is_root ''/tmp/proj'' \<and> go_up ''/tmp/proj'' = ''/tmp'' \<and>
   command no_lib demo_fs ''/tmp/proj'' ''3'' [] = Continue demo_fs ''/tmp'' [] [] \<and>
   list_all valid_name ([''tmp''] @ [''proj'']) \<and>
   go_up (abs_string ([''tmp''] @ [''proj''])) = abs_string [''tmp'']"
proof -
  have r: "is_root ''/''"
    by (simp add: is_root_def is_absolute_def is_sep_def has_relative_path_def relative_path_def)
  have a: "is_absolute ''/tmp/proj'' \<and> \<not> is_root ''/tmp/proj''"
    by (simp add: is_root_def is_absolute_def is_sep_def has_relative_path_def relative_path_def)
  have v: "list_all valid_name ([''tmp''] @ [''proj''])"
    by (simp add: valid_name_def is_sep_def)
  have p: "parent_path ''/tmp/proj'' = ''/tmp''"
    by (simp add: parent_path_def has_relative_path_def relative_path_def is_sep_def strip_seps_def)
  from go_up_root_noop[of "''/''" no_lib demo_fs "[]" "[''tmp'']" "''proj''"]
       go_up_root_noop[of "''/tmp/proj''" no_lib demo_fs "[]" "[''tmp'']" "''proj''"] r a v p
  show ?thesis by simp
qed

section \<open>The permission column\<close>

text \<open>What \<^verbatim>\<open>perms_to_string\<close> returns has nine characters, each of \<^verbatim>\<open>rwx-\<close>.\<close>

lemma perms_to_string_shape:
  "length (perms_to_string p) = 9 \<and>
   set (perms_to_string p) \<subseteq> {CHR ''r'', CHR ''w'', CHR ''x'', CHR ''-''}"
  by (simp add: perms_to_string_def check_def)

text \<open>
  Claim C2. The permission column of a listed entry should be nine characters wide also
  when the status query fails. In the directory \<^verbatim>\<open>/inbox\<close> of the sample file system,
  which may be read but not searched, the query for the entry \<^verbatim>\<open>a\<close> fails and the
  column shows the placeholder of \<^verbatim>\<open>list_dir\<close>, which has ten characters.
\<close>

theorem perms_placeholder_length:
  "list_dir demo_fs ''/inbox'' =
     [Current_Directory ''/inbox'', Table_Header,
      Row \<lparr>row_type = ''[FILE]'', row_perm = ''----------'', row_size = 0,
           row_mod = None, row_name = ''a''\<rparr>] \<and>
   length ''----------'' = 10"
  by (simp add: list_dir_def open_dir_def locate_def demo_defs path_defs access_defs
      entry_row_def entry_file_type_def fs_status_def status_of_def fs_file_size_def
      fs_last_write_time_def entry_is_symlink_def)

section \<open>Termination of the process\<close>

text \<open>The loop ends on every input, and the only exit code it returns is 0.\<close>

lemma main_loop_exit_code:
  "fst (main_loop l fs cur inp) = Exit_Code k \<Longrightarrow> k = 0"
  by (induction l fs cur inp rule: main_loop.induct)
     (auto split: flow.splits prod.splits)

text \<open>
  Claim C9. The process should end with exit code 0 on every input. On the sample file
  system, entering \<^verbatim>\<open>/vault/abcd\<close> (below a directory that may not be searched) makes
  \<^verbatim>\<open>fs::exists\<close> throw in \<^verbatim>\<open>main\<close>, where no handler is installed: the process ends
  by \<^verbatim>\<open>std::terminate\<close> and never reads the exit command that follows.
\<close>

theorem enter_directory_uncaught:
  "fst (main no_lib demo_fs [''2'', ''/vault/abcd'', ''0'']) = Terminate_Called EACCES"
  by (simp add: main_def fs_current_path_def command_def input_path_def enter_directory_def
      fs_exists_def fs_status_def status_of_def locate_def demo_defs path_defs access_defs
      abs_string_def split: prod.splits)

section \<open>The current directory across one command\<close>

text \<open>
  Claim C8. Only the commands 2 (enter directory) and 3 (go up) change the current
  directory: after any other choice, valid or not, the loop continues with the current
  directory it had.
\<close>

theorem current_directory_frame:
  "choice \<noteq> ''2'' \<Longrightarrow> choice \<noteq> ''3'' \<Longrightarrow>
   command l fs cur choice inp = Continue fs' cur' inp' out \<Longrightarrow> cur' = cur"
  by (auto simp: command_def input_path_def split: if_splits list.splits prod.splits)

theorem current_directory_frame_witness:
  "''4'' \<noteq> ''2'' \<and> ''4'' \<noteq> ''3'' \<and>
   (\<exists>fs'. command no_lib demo_fs ''/proj'' ''4'' [''new.txt'', ''0''] =
      Continue fs' ''/proj'' [''0''] [Prompt ''Enter file path to create: '', File_Created ''/proj/new.txt''])"
proof -
  have c: "\<exists>fs'. command no_lib demo_fs ''/proj'' ''4'' [''new.txt'', ''0''] =
      Continue fs' ''/proj'' [''0''] [Prompt ''Enter file path to create: '', File_Created ''/proj/new.txt'']"
    by (simp add: command_def input_path_def create_file_def fs_exists_def fs_status_def
        status_of_def locate_def ofstream_open_def demo_defs path_defs access_defs
        status_not_found_def)
  then obtain fs' where e: "command no_lib demo_fs ''/proj'' ''4'' [''new.txt'', ''0''] =
      Continue fs' ''/proj'' [''0''] [Prompt ''Enter file path to create: '', File_Created ''/proj/new.txt'']"
    by blast
  from current_directory_frame[OF _ _ e] c show ?thesis by simp
qed

text \<open>
  Claim C10. An empty line (or the end of the input) at the path prompt of the commands
  2, 4, 5, 6, 7 and 8 cancels the command: the loop continues with the same file system
  and the same current directory, and nothing but the prompt was printed. For 7 and 8
  the same holds when the source is given and the destination prompt gets the empty
  line.
\<close>

theorem empty_path_cancels:
  "(choice \<in> set [''2'', ''4'', ''5'', ''6'', ''7'', ''8''] \<longrightarrow>
      (\<exists>pr. command l fs cur choice ([] # inp) = Continue fs cur inp [Prompt pr]) \<and>
      (\<exists>pr. command l fs cur choice [] = Continue fs cur [] [Prompt pr])) \<and>
   (choice \<in> set [''7'', ''8''] \<and> src \<noteq> [] \<longrightarrow>
      (\<exists>pr pr'. command l fs cur choice (src # [] # inp) = Continue fs cur inp [Prompt pr, Prompt pr']))"
  by (auto simp: command_def input_path_def)

theorem empty_path_cancels_witness:
  "''6'' \<in> set [''2'', ''4'', ''5'', ''6'', ''7'', ''8''] \<and>
   command no_lib demo_fs ''/proj'' ''6'' ['''', ''0''] =
     Continue demo_fs ''/proj'' [''0''] [Prompt ''Enter file/directory to delete: ''] \<and>
   ''7'' \<in> set [''7'', ''8''] \<and> ''notes'' \<noteq> [] \<and>
   command no_lib demo_fs ''/proj'' ''7'' [''notes'', '''', ''0''] =
     Continue demo_fs ''/proj'' [''0''] [Prompt ''Enter source path: '', Prompt ''Enter destination path: '']"
  using empty_path_cancels[of "''6''" no_lib demo_fs "''/proj''" "[''0'']" "''notes''"]
        empty_path_cancels[of "''7''" no_lib demo_fs "''/proj''" "[''0'']" "''notes''"]
  by (simp add: command_def input_path_def)


section \<open>Entering a directory\<close>




lemmas eval_defs = locate_def demo_defs path_defs access_defs fs_status_def status_of_def
  status_not_found_def fs_exists_def fs_is_directory_def


section \<open>The kind of a listed entry\<close>

lemma list_entries_row:
  "Row r \<in> set (list_entries fs cur es) \<Longrightarrow>
   \<exists>nm n. (nm, n) \<in> set es \<and> entry_row fs (append_path cur nm) n = Inr r"
  by (induction es) (fastforce split: sum.splits)+

lemma entry_row_type:
  "entry_row fs p n = Inr r \<Longrightarrow>
   row_name r = filename p \<and>
   row_type r = (case n of
       Dir m es \<Rightarrow> ''[DIR]''
     | File m c \<Rightarrow> ''[FILE]''
     | Symlink t \<Rightarrow> if fs_is_directory fs p = Inr True then ''[DIR]'' else ''[LNK]'')"
  by (cases n)
     (auto simp: entry_row_def entry_file_type_def entry_is_symlink_def fs_is_directory_def
       split: sum.splits)

lemma demo_listing:
  "list_dir demo_fs ''/proj'' =
    [Current_Directory ''/proj'', Table_Header,
     Row \<lparr>row_type = ''[DIR]'', row_perm = ''rwxr-xr-x'', row_size = 0, row_mod = Some 100, row_name = ''x''\<rparr>,
     Row \<lparr>row_type = ''[DIR]'', row_perm = ''rwxr-xr-x'', row_size = 0, row_mod = Some 100, row_name = ''y''\<rparr>,
     Row \<lparr>row_type = ''[DIR]'', row_perm = ''rwxr-xr-x'', row_size = 0, row_mod = Some 100, row_name = ''z''\<rparr>,
     Row \<lparr>row_type = ''[FILE]'', row_perm = ''rw-r--r--'', row_size = 2, row_mod = Some 100, row_name = ''notes''\<rparr>,
     Row \<lparr>row_type = ''[DIR]'', row_perm = ''rwxr-xr-x'', row_size = 0, row_mod = Some 100, row_name = ''sub''\<rparr>,
     Row \<lparr>row_type = ''[LNK]'', row_perm = ''rwxrwxrwx'', row_size = 0, row_mod = None, row_name = ''gone''\<rparr>]"
  by (simp add: list_dir_def open_dir_def eval_defs entry_row_def entry_file_type_def
      fs_file_size_def fs_last_write_time_def entry_is_symlink_def perms_to_string_def check_def
      owner_read_def owner_write_def owner_exec_def group_read_def group_write_def group_exec_def
      others_read_def others_write_def others_exec_def)

text \<open>
  Claim C1, as amended. Every row of a listing belongs to an entry of the directory, and
  its kind is \<^verbatim>\<open>[DIR]\<close> for a directory and for a link whose target is a directory,
  \<^verbatim>\<open>[LNK]\<close> for every other link (also a dangling one), and \<^verbatim>\<open>[FILE]\<close> otherwise.
\<close>

theorem list_dir_entry_kind:
  assumes "open_dir fs cur = Inr (m, es)" and "Row r \<in> set (list_dir fs cur)"
  shows "\<exists>nm n. (nm, n) \<in> set es \<and> row_name r = filename (append_path cur nm) \<and>
           row_type r = (case n of
               Dir m' es' \<Rightarrow> ''[DIR]''
             | File m' c \<Rightarrow> ''[FILE]''
             | Symlink t \<Rightarrow>
                 if fs_is_directory fs (append_path cur nm) = Inr True then ''[DIR]'' else ''[LNK]'')"
proof -
  from assms have "Row r \<in> set (list_entries fs cur es)" by (simp add: list_dir_def)
  then obtain nm n where "(nm, n) \<in> set es" "entry_row fs (append_path cur nm) n = Inr r"
    by (blast dest: list_entries_row)
  then show ?thesis using entry_row_type by blast
qed

theorem list_dir_entry_kind_witness:
  "open_dir demo_fs ''/proj'' = Inr (rwx 0x1ED, proj_entries) \<and>
   Row \<lparr>row_type = ''[LNK]'', row_perm = ''rwxrwxrwx'', row_size = 0, row_mod = None,
        row_name = ''gone''\<rparr> \<in> set (list_dir demo_fs ''/proj'') \<and>
   (\<exists>nm n. (nm, n) \<in> set proj_entries \<and> ''gone'' = filename (append_path ''/proj'' nm) \<and>
      ''[LNK]'' = (case n of
               Dir m' es' \<Rightarrow> ''[DIR]''
             | File m' c \<Rightarrow> ''[FILE]''
             | Symlink t \<Rightarrow>
                 if fs_is_directory demo_fs (append_path ''/proj'' nm) = Inr True
                 then ''[DIR]'' else ''[LNK]''))"
proof -
  have a: "open_dir demo_fs ''/proj'' = Inr (rwx 0x1ED, proj_entries)"
    by (simp add: open_dir_def eval_defs)
  have b: "Row \<lparr>row_type = ''[LNK]'', row_perm = ''rwxrwxrwx'', row_size = 0, row_mod = None,
        row_name = ''gone''\<rparr> \<in> set (list_dir demo_fs ''/proj'')"
    by (simp add: demo_listing)
  from list_dir_entry_kind[OF a b] a b show ?thesis by simp
qed


text \<open>
  Claim C1, as stated, fails: in the sample file system \<^verbatim>\<open>/proj/sub\<close> is a link to the
  directory \<^verbatim>\<open>x\<close>, and its row has the kind \<^verbatim>\<open>[DIR]\<close>, since
  \<^verbatim>\<open>entry.is_directory()\<close> follows links and is asked first.
\<close>

theorem symlink_to_directory_listed_as_dir:
  "lookup (root demo_fs) [''proj'', ''sub''] = Some (Symlink ''x'') \<and>
   Row \<lparr>row_type = ''[DIR]'', row_perm = ''rwxr-xr-x'', row_size = 0, row_mod = Some 100,
        row_name = ''sub''\<rparr> \<in> set (list_dir demo_fs ''/proj'')"
  by (simp add: demo_listing) (simp add: demo_defs)


section \<open>Lookups in an updated tree\<close>

lemma lookup_case:
  "lookup n q =
     (case q of
        [] \<Rightarrow> Some n
      | c # cs \<Rightarrow>
          (case n of
             Dir m es \<Rightarrow> (case map_of es c of None \<Rightarrow> None | Some n' \<Rightarrow> lookup n' cs)
           | _ \<Rightarrow> None))"
  by (cases q; cases n) auto

lemma lookup_append:
  "lookup r (c @ q) = (case lookup r c of None \<Rightarrow> None | Some n \<Rightarrow> lookup n q)"
  by (induction r c rule: lookup.induct) (auto split: option.splits)




section \<open>Creating a file\<close>



section \<open>Deleting\<close>








lemma namei_follow_nonlink:
  "namei r fuel follow cur comps = Inr (Found tgt) \<Longrightarrow> \<not> follow \<Longrightarrow>
   lookup r tgt = Some n \<Longrightarrow> \<forall>t. n \<noteq> Symlink t \<Longrightarrow>
   namei r fuel True cur comps = Inr (Found tgt)"
proof (induction r fuel follow cur comps rule: namei.induct)
  case (1 r fuel follow cur)
  then show ?case by simp
next
  case (2 r fuel follow cur c rest)
  note run = "2.prems"(1) and rest = "2.prems"(2-)
  from run obtain m es where cur: "lookup r cur = Some (Dir m es)" and s: "\<not> \<not> can_search m"
    by (auto split: option.splits node.splits if_splits)
  consider (dot) "c = ''.''" | (dotdot) "c \<noteq> ''.''" "c = ''..''"
    | (name) "c \<noteq> ''.''" "c \<noteq> ''..''"
    by blast
  then show ?case
  proof cases
    case dot
    with run cur s have "namei r fuel follow cur rest = Inr (Found tgt)" by simp
    from "2.IH"(1)[OF cur refl s dot this rest] show ?thesis using cur s dot by simp
  next
    case dotdot
    with run cur s have "namei r fuel follow (butlast cur) rest = Inr (Found tgt)" by simp
    from "2.IH"(2)[OF cur refl s dotdot this rest] show ?thesis using cur s dotdot by simp
  next
    case name
    from run cur s name obtain ch where ch: "map_of es c = Some ch"
      by (auto split: option.splits if_splits)
    show ?thesis
    proof (cases ch)
      case (File fm fc)
      with run cur s name ch have "namei r fuel follow (cur @ [c]) rest = Inr (Found tgt)" by simp
      from "2.IH"(3)[OF cur refl s name ch File this rest] show ?thesis
        using cur s name ch File by simp
    next
      case (Dir dm des)
      with run cur s name ch have "namei r fuel follow (cur @ [c]) rest = Inr (Found tgt)" by simp
      from "2.IH"(4)[OF cur refl s name ch Dir this rest] show ?thesis
        using cur s name ch Dir by simp
    next
      case (Symlink t)
      have here: "lookup r (cur @ [c]) = Some (Symlink t)"
        using cur ch Symlink by (simp add: lookup_append)
      have go: "\<not> (rest = [] \<and> \<not> follow)"
      proof
        assume "rest = [] \<and> \<not> follow"
        with run cur s name ch Symlink have "tgt = cur @ [c]" by simp
        with here rest show False by auto
      qed
      with run cur s name ch Symlink have t: "t \<noteq> []" and f: "fuel \<noteq> 0"
        by (auto split: if_splits)
      with run cur s name ch Symlink go
      have "namei r (fuel - 1) follow (if is_absolute t then [] else cur) (split_path t @ rest)
              = Inr (Found tgt)"
        by (simp split: if_splits)
      from "2.IH"(5)[OF cur refl s name ch Symlink go t f this rest] show ?thesis
        using cur s name ch Symlink t f by simp
    qed
  qed
qed







lemma removable_dir_search: "removable (Dir m es) \<Longrightarrow> can_search m"
  by simp




lemmas remove_defs = delete_path_def fs_remove_all_def fs_remove_def count_removed_def
  remove_entry_def


text \<open>
  A path that ends in a double dot has the content of the directory it leads to removed
  and counted, and the directory kept; so has a path that leads to the directory through
  its own content, which no longer resolves once the directory is empty. A link to a
  directory named with a trailing separator has the target emptied and the link kept.
\<close>

lemma delete_path_dotdot_keeps_directory:
  "fs_is_directory demo_fs ''/proj/x/..'' = Inr True \<and>
   snd (delete_path demo_fs ''/proj/x/..'') = [Deleted_Entries 9] \<and>
   lookup (root (fst (delete_path demo_fs ''/proj/x/..''))) [''proj''] =
     Some (Dir (rwx 0x1ED) [])"
  by (simp add: remove_defs eval_defs)

lemma delete_path_through_removed:
  "snd (delete_path demo_fs ''/proj/x/../../proj'') = [Deleted_Entries 9] \<and>
   lookup (root (fst (delete_path demo_fs ''/proj/x/../../proj''))) [''proj''] =
     Some (Dir (rwx 0x1ED) [])"
  by (simp add: remove_defs eval_defs)

lemma delete_path_link_with_separator:
  "snd (delete_path demo_fs ''/proj/sub/'') = [Error_Caught ENOTDIR] \<and>
   lookup (root (fst (delete_path demo_fs ''/proj/sub/''))) [''proj'', ''sub''] =
     Some (Symlink ''x'')"
  by (simp add: remove_defs eval_defs)

section \<open>Searching by name\<close>

lemma str_find_sublist: "str_find s needle \<noteq> None \<longleftrightarrow> sublist needle s"
  by (induction s) (auto simp: sublist_Cons_right)

lemma path_below_Cons: "path_below d (c # cs) = path_below (append_path d c) cs"
  by (simp add: path_below_def)

lemma walk_as_comps:
  "walk_node p x n = map (path_below p) (walk_comps_node x n)"
  "walk_entries d x es = map (path_below d) (walk_comps_entries x es)"
  by (induction p x n and d x es rule: walk_node_walk_entries.induct)
     (simp_all add: path_below_Cons comp_def, simp add: path_below_def)

lemma wf_entries_map_of:
  "wf_entries es \<Longrightarrow> map_of es c = Some n \<Longrightarrow> valid_name c \<and> wf_node n"
  by (induction es) (auto split: if_splits)

lemma wf_lookup: "wf_node r \<Longrightarrow> lookup r c = Some n \<Longrightarrow> wf_node n"
  by (induction r c rule: lookup.induct) (auto split: option.splits dest: wf_entries_map_of)

lemma listed_Nil: "\<not> listed x [] cs"
proof (cases cs)
  case (Cons c cs')
  then show ?thesis by (cases cs') auto
qed simp

lemma listed_head: "listed x es (c # cs) \<Longrightarrow> map_of es c \<noteq> None"
  by (cases cs) (auto split: option.splits)

lemma listed_valid: "listed x es cs \<Longrightarrow> wf_entries es \<Longrightarrow> list_all valid_name cs"
  by (induction x es cs rule: listed.induct)
     (auto split: option.splits node.splits dest: wf_entries_map_of)

lemma listed_Cons:
  "listed x ((nm, n) # es) (c # cs) =
     (if c = nm then cs = [] \<or> listed_in x n cs else listed x es (c # cs))"
  by (cases cs) (auto simp: listed_in_def split: option.splits node.splits)

lemma walk_comps_listed:
  "wf_node n \<Longrightarrow> set (walk_comps_node x n) = {cs. listed_in x n cs}"
  "distinct (map fst es) \<Longrightarrow> wf_entries es \<Longrightarrow> set (walk_comps_entries x es) = {cs. listed x es cs}"
proof (induction x n and x es rule: walk_comps_node_walk_comps_entries.induct)
  case (5 x nm n es)
  have key: "nm \<notin> fst ` set es" using "5.prems" by auto
  have "listed x ((nm, n) # es) cs \<longleftrightarrow>
          cs = [nm] \<or> (\<exists>cs'. cs = nm # cs' \<and> listed_in x n cs') \<or> listed x es cs" for cs
  proof (cases cs)
    case Nil
    then show ?thesis by simp
  next
    case (Cons c cs')
    have "listed x es (nm # cs') \<Longrightarrow> False"
      using key listed_head[of x es nm cs'] by (auto simp: map_of_eq_None_iff)
    moreover have "\<not> listed_in x n []" by (simp add: listed_in_def split: node.splits)
    ultimately show ?thesis unfolding Cons listed_Cons by auto
  qed
  then have "{cs. listed x ((nm, n) # es) cs} =
      {[nm]} \<union> (#) nm ` {cs. listed_in x n cs} \<union> {cs. listed x es cs}"
    by auto
  with 5 show ?case by auto
qed (auto simp: listed_in_def listed_Nil)

lemma walk_comps_distinct:
  "wf_node n \<Longrightarrow> distinct (walk_comps_node x n)"
  "distinct (map fst es) \<Longrightarrow> wf_entries es \<Longrightarrow> distinct (walk_comps_entries x es)"
proof (induction x n and x es rule: walk_comps_node_walk_comps_entries.induct)
  case (5 x nm n es)
  from "5.prems" have wf: "wf_node n" "distinct (map fst es)" "wf_entries es"
    and key: "nm \<notin> fst ` set es"
    by auto
  note sets = walk_comps_listed(1)[OF wf(1), of x] walk_comps_listed(2)[OF wf(2,3), of x]
  have head: "cs \<in> set (walk_comps_entries x es) \<Longrightarrow> cs \<noteq> [] \<and> hd cs \<noteq> nm" for cs
    using key listed_head[of x es "hd cs" "tl cs"]
    by (cases cs) (auto simp: sets map_of_eq_None_iff)
  have "[] \<notin> set (walk_comps_node x n)"
    by (simp add: sets listed_in_def split: node.splits)
  then have 1: "[nm] \<notin> set (map ((#) nm) (walk_comps_node x n))" by auto
  have 2: "[nm] \<notin> set (walk_comps_entries x es)" using head[of "[nm]"] by auto
  have 3: "distinct (map ((#) nm) (walk_comps_node x n))"
    using "5.IH"(1)[OF wf(1)] by (simp add: distinct_map)
  have 4: "set (map ((#) nm) (walk_comps_node x n)) \<inter> set (walk_comps_entries x es) = {}"
    by (auto dest: head)
  from 1 2 3 4 "5.IH"(2)[OF wf(2,3)] show ?case by simp
qed auto

lemma valid_name_relative: "valid_name c \<Longrightarrow> \<not> is_absolute c"
  by (cases c) (auto simp: valid_name_def is_absolute_def)

lemma has_filename_append:
  "q \<noteq> [] \<Longrightarrow> \<not> is_sep (last q) \<Longrightarrow> has_filename (p @ q)"
  by (cases q rule: rev_cases) (auto simp: has_filename_def filename_def)

lemma path_below_join:
  "cs \<noteq> [] \<Longrightarrow> list_all valid_name cs \<Longrightarrow> path_below d cs = base d @ join_comps cs"
proof (induction cs rule: rev_nonempty_induct)
  case (single c)
  then show ?case
    by (simp add: path_below_def append_path_def base_def valid_name_relative)
next
  case (snoc c cs)
  then have v: "list_all valid_name cs" "valid_name c" by auto
  from join_comps_hd[OF snoc(1) v(1)] join_comps_last[OF snoc(1) v(1)]
  have "has_filename (base d @ join_comps cs)"
    by (intro has_filename_append) auto
  with snoc v show ?case
    by (simp add: path_below_def append_path_def valid_name_relative join_comps_snoc)
qed

lemma join_comps_split:
  assumes "valid_name c" "list_all valid_name cs"
  shows "takeWhile (\<lambda>x. \<not> is_sep x) (join_comps (c # cs)) = c"
    and "dropWhile (\<lambda>x. \<not> is_sep x) (join_comps (c # cs)) =
           (if cs = [] then [] else CHR ''/'' # join_comps cs)"
  using assms
  by (cases cs; auto simp: valid_name_def takeWhile_all_append dropWhile_all_append is_sep_def)+

lemma join_comps_inj:
  "list_all valid_name cs \<Longrightarrow> list_all valid_name ds \<Longrightarrow>
   join_comps cs = join_comps ds \<Longrightarrow> cs = ds"
proof (induction cs arbitrary: ds)
  case Nil
  show ?case
  proof (cases ds)
    case (Cons e es)
    with Nil have "e \<noteq> []" by (simp add: valid_name_def)
    from join_comps_nonempty[OF this, of es] Nil Cons show ?thesis by simp
  qed simp
next
  case (Cons c cs)
  from Cons.prems have "c \<noteq> []" by (simp add: valid_name_def)
  from join_comps_nonempty[OF this, of cs] Cons.prems(3)
  obtain e es where ds: "ds = e # es"
    by (cases ds) auto
  from Cons.prems ds have v: "valid_name c" "list_all valid_name cs" "valid_name e"
      "list_all valid_name es"
    by auto
  from Cons.prems(3) ds join_comps_split(1)[OF v(1,2)] join_comps_split(1)[OF v(3,4)]
  have ce: "c = e" by simp
  from Cons.prems(3) ds join_comps_split(2)[OF v(1,2)] join_comps_split(2)[OF v(3,4)]
  have rest: "(if cs = [] then [] else CHR ''/'' # join_comps cs) =
              (if es = [] then [] else CHR ''/'' # join_comps es)"
    by simp
  have "join_comps cs = join_comps es"
    using rest by (cases "cs = []"; cases "es = []") (auto split: if_splits)
  with Cons.IH[OF v(2,4)] ce ds show ?case by simp
qed

lemma path_below_inj:
  assumes "cs \<noteq> []" "list_all valid_name cs" "ds \<noteq> []" "list_all valid_name ds"
    and "path_below d cs = path_below d ds"
  shows "cs = ds"
  using assms by (auto simp: path_below_join intro: join_comps_inj)

lemma filename_path_below:
  assumes "cs \<noteq> []" "list_all valid_name cs"
  shows "filename (path_below d cs) = last cs"
proof -
  from assms obtain cs' c where cs: "cs = cs' @ [c]" by (cases cs rule: rev_cases) auto
  with assms have c: "\<forall>x\<in>set c. \<not> is_sep x" "list_all valid_name cs'"
    by (auto simp: valid_name_def)
  have b: "takeWhile (\<lambda>x. \<not> is_sep x) (rev (base d)) = []"
    by (auto simp: base_def has_filename_def filename_def is_sep_def)
  show ?thesis
  proof (cases "cs' = []")
    case True
    with c b assms show ?thesis
      by (simp add: cs path_below_join filename_def takeWhile_all_append)
  next
    case False
    with c assms show ?thesis
      by (simp add: cs path_below_join filename_def join_comps_snoc takeWhile_all_append is_sep_def)
  qed
qed

lemma open_dir_lookup:
  "open_dir fs p = Inr (m, es) \<Longrightarrow> \<exists>c. lookup (root fs) c = Some (Dir m es)"
  by (auto simp: open_dir_def split: sum.splits located.splits option.splits node.splits if_splits)

text \<open>
  Claim C7. In a well-formed file system (names are valid and distinct within a
  directory), when the root of the search can be opened, \<^verbatim>\<open>search_recursive\<close> prints
  hits only, never an error, no path twice, and exactly the paths \<open>path_below root_dir cs\<close>
  of the entries \<open>cs\<close> that the walk can reach (every directory above the entry, below
  the root, can be opened) and whose name, the final component of the path, contains the
  needle as a contiguous, case-sensitive substring. A directory that may not be opened is
  itself listed and its content skipped; a root that may not be opened gives no hit and
  no error.
\<close>

theorem search_recursive_spec:
  "(open_dir fs root_dir = Inl EACCES \<longrightarrow> search_recursive fs root_dir needle = []) \<and>
   (wf_node (root fs) \<and> open_dir fs root_dir = Inr (m, es) \<longrightarrow>
      (\<exists>hits. search_recursive fs root_dir needle = map Hit hits \<and> distinct hits \<and>
         set hits = {p. \<exists>cs. listed (can_search m) es cs \<and> p = path_below root_dir cs \<and>
                        sublist needle (last cs)} \<and>
         (\<forall>cs. listed (can_search m) es cs \<longrightarrow> filename (path_below root_dir cs) = last cs)))"
proof (intro conjI impI)
  assume "open_dir fs root_dir = Inl EACCES"
  then show "search_recursive fs root_dir needle = []"
    by (simp add: search_recursive_def)
next
  assume h: "wf_node (root fs) \<and> open_dir fs root_dir = Inr (m, es)"
  then obtain c where "lookup (root fs) c = Some (Dir m es)"
    by (blast dest: open_dir_lookup)
  with h have "wf_node (Dir m es)" by (blast intro: wf_lookup)
  then have wf: "distinct (map fst es)" "wf_entries es" by simp_all
  let ?x = "can_search m"
  let ?W = "walk_comps_entries ?x es"
  let ?hits = "filter (\<lambda>p. str_find (filename p) needle \<noteq> None) (walk_entries root_dir ?x es)"
  have W: "set ?W = {cs. listed ?x es cs}" using wf by (rule walk_comps_listed(2))
  have ok: "cs \<noteq> [] \<and> list_all valid_name cs" if "listed ?x es cs" for cs
    using that listed_valid[OF that wf(2)] by (cases cs) auto
  have name: "filename (path_below root_dir cs) = last cs" if "listed ?x es cs" for cs
    using ok[OF that] by (simp add: filename_path_below)
  have "inj_on (path_below root_dir) (set ?W)"
    unfolding W by (rule inj_onI) (auto dest!: ok intro: path_below_inj)
  with walk_comps_distinct(2)[OF wf, of ?x] have "distinct (walk_entries root_dir ?x es)"
    by (simp add: walk_as_comps distinct_map)
  then have d: "distinct ?hits" by simp
  have s: "set ?hits = {p. \<exists>cs. listed ?x es cs \<and> p = path_below root_dir cs \<and>
                        sublist needle (last cs)}"
    using str_find_sublist[unfolded not_None_eq]
    by (auto simp: walk_as_comps W name)
  from h have "search_recursive fs root_dir needle = map Hit ?hits"
    by (simp add: search_recursive_def)
  with d s name
  show "\<exists>hits. search_recursive fs root_dir needle = map Hit hits \<and> distinct hits \<and>
         set hits = {p. \<exists>cs. listed (can_search m) es cs \<and> p = path_below root_dir cs \<and>
                        sublist needle (last cs)} \<and>
         (\<forall>cs. listed (can_search m) es cs \<longrightarrow> filename (path_below root_dir cs) = last cs)"
    by blast
qed

lemma demo_search:
  "search_recursive demo_fs ''/'' ''abc'' = [Hit ''/proj/x/abc.txt'', Hit ''/proj/y/zzabc'']"
  by (simp add: search_recursive_def open_dir_def eval_defs)

theorem search_recursive_spec_witness:
  "open_dir demo_fs ''/vault'' = Inl EACCES \<and> search_recursive demo_fs ''/vault'' ''abc'' = [] \<and>
   wf_node (root demo_fs) \<and> open_dir demo_fs ''/'' = Inr (rwx 0x1ED, root_entries) \<and>
   (\<exists>hits. search_recursive demo_fs ''/'' ''abc'' = map Hit hits \<and> distinct hits) \<and>
   search_recursive demo_fs ''/'' ''abc'' = [Hit ''/proj/x/abc.txt'', Hit ''/proj/y/zzabc'']"
proof -
  have a: "open_dir demo_fs ''/vault'' = Inl EACCES"
    by (simp add: open_dir_def eval_defs)
  have b: "wf_node (root demo_fs)"
    by (simp add: demo_defs valid_name_def is_sep_def)
  have c: "open_dir demo_fs ''/'' = Inr (rwx 0x1ED, root_entries)"
    by (simp add: open_dir_def locate_def demo_fs_def demo_tree_def rwx_def path_defs access_defs)
  from search_recursive_spec[of demo_fs "''/vault''" "''abc''" "rwx 0x1ED" root_entries] a
  have 1: "search_recursive demo_fs ''/vault'' ''abc'' = []" by simp
  from search_recursive_spec[of demo_fs "''/''" "''abc''" "rwx 0x1ED" root_entries] b c
  have 2: "\<exists>hits. search_recursive demo_fs ''/'' ''abc'' = map Hit hits \<and> distinct hits"
    by blast
  from a 1 b c 2 demo_search show ?thesis by simp
qed


end
